theory Spec2Isabelle
  imports Main
begin

section \<open>Bytes, errors, outcomes and the log\<close>

text \<open>
  A Go \<^verbatim>\<open>[]byte\<close> and a Go \<^verbatim>\<open>string\<close> are both sequences of bytes; both are lists of
  \<^typ>\<open>char\<close> here (a \<^typ>\<open>char\<close> is one byte). \<^verbatim>\<open>make([]byte, n)\<close> fills the slice
  with the zero byte.
\<close>

type_synonym byte = char

abbreviation NUL :: byte where
  "NUL \<equiv> CHR 0x00"

text \<open>
  The error values the program can see: \<^verbatim>\<open>io.EOF\<close>, \<^verbatim>\<open>os.ErrInvalid\<close> (a method called on
  a nil \<^verbatim>\<open>*os.File\<close>), an error of a system call, of \<^verbatim>\<open>regexp.Compile\<close>, and of
  \<^verbatim>\<open>text/template\<close> (parsing or executing).
\<close>

datatype error = EOF | ErrInvalid | PathError string | SyntaxError string | ExecError string

text \<open>A call either returns or panics; nothing in the program recovers from a panic.\<close>

datatype 'a outcome = Panics string | Returns 'a

text \<open>
  The lines the program writes with \<^verbatim>\<open>log.Printf\<close> and \<^verbatim>\<open>log.Println\<close>, one constructor
  per call site. The rendered template is only ever logged (\<open>LogOutput\<close>): the log is the
  program's output.
\<close>

datatype log_entry =
    LogNoFile
  | LogOldOffset int
  | LogNewOffset int
  | LogRead int int "error option"
  | LogLooking string
  | LogFound
  | LogError error
  | LogOutput string
  | LogNoRegex string string
  | LogNoTemplate string string
  | LogBadFilter string error
  | LogNoWatch string error

section \<open>The open file, as the operating system keeps it\<close>

text \<open>
  An open \<^verbatim>\<open>*os.File\<close> on a regular file: the bytes of the file and the position of the
  file description, which \<^verbatim>\<open>Read\<close> and \<^verbatim>\<open>Seek\<close> move. The position is the kernel's; the
  \<open>offset\<close> field of \<open>LogFile\<close> below is the program's own count.
\<close>

record os_file =
  data :: "byte list"
  pos :: nat

text \<open>
  What the operating system does during one \<^verbatim>\<open>ReadNewLines\<close> call is an input of the
  model: \<open>stat_err\<close> is the error of \<^verbatim>\<open>fstat\<close> if it fails, \<open>read_err\<close> the error of
  \<^verbatim>\<open>read\<close> if it fails, and \<open>read_avail\<close> a bound on the bytes one \<^verbatim>\<open>read\<close> delivers
  (\<^verbatim>\<open>Read\<close> reads up to \<^verbatim>\<open>len(b)\<close> bytes; \<open>None\<close> is no bound).
\<close>

record io_env =
  stat_err :: "error option"
  read_err :: "error option"
  read_avail :: "nat option"

definition io_ok :: io_env where
  "io_ok = \<lparr>stat_err = None, read_err = None, read_avail = None\<rparr>"

text \<open>\<^verbatim>\<open>f.Stat()\<close> followed by \<^verbatim>\<open>.Size()\<close>: the length of the file, or the error.\<close>

definition File_Stat :: "io_env \<Rightarrow> os_file \<Rightarrow> error + int" where
  "File_Stat env fl =
     (case stat_err env of
        Some e \<Rightarrow> Inl e
      | None \<Rightarrow> Inr (int (length (data fl))))"

text \<open>
  \<^verbatim>\<open>f.Read(buf)\<close>: the buffer after the call, \<open>n\<close>, the error, and the file with its
  position moved. A zero-length buffer returns \<open>(0, nil)\<close> without a system call; a failed
  system call gives \<open>n = 0\<close> and its error; a read that delivers no byte gives \<open>io.EOF\<close>;
  otherwise the first \<open>n\<close> bytes of the buffer are overwritten with the bytes at the
  position, which advances by \<open>n\<close>.
\<close>

definition File_Read ::
  "io_env \<Rightarrow> os_file \<Rightarrow> byte list \<Rightarrow> (byte list \<times> int \<times> error option) \<times> os_file" where
  "File_Read env fl buf =
     (if length buf = 0 then ((buf, 0, None), fl)
      else
        (case read_err env of
           Some e \<Rightarrow> ((buf, 0, Some e), fl)
         | None \<Rightarrow>
             (let avail = drop (pos fl) (data fl);
                  m = (case read_avail env of
                         None \<Rightarrow> min (length buf) (length avail)
                       | Some c \<Rightarrow> min (length buf) (min c (length avail)))
              in if m = 0 then ((buf, 0, Some EOF), fl)
                 else ((take m avail @ drop m buf, int m, None), fl\<lparr>pos := pos fl + m\<rparr>))))"

text \<open>\<^verbatim>\<open>f.Seek(off, os.SEEK_SET)\<close> on a regular file: the new position, or an error.\<close>

definition File_Seek :: "os_file \<Rightarrow> int \<Rightarrow> error + (os_file \<times> int)" where
  "File_Seek fl off =
     (if off < 0 then Inl (PathError ''seek: invalid argument'')
      else Inr (fl\<lparr>pos := nat off\<rparr>, off))"

section \<open>log\_file.go: the cursor\<close>

text \<open>
  \<^verbatim>\<open>type LogFile struct { file *os.File; Filename string; offset int64 }\<close>. The pointer
  \<open>file\<close> is \<open>None\<close> when nil (after \<open>Close\<close>). Sizes and offsets of a file are between
  0 and \<open>2^63 - 1\<close>, so their differences do not overflow \<^verbatim>\<open>int64\<close>: the field is an
  \<^typ>\<open>int\<close>.
\<close>

record LogFile =
  file' :: "os_file option"
  Filename :: string
  offset :: int

text \<open>
  \<^verbatim>\<open>NewLogFile(filename, initialOffset)\<close>. \<open>os.Open\<close> is the parameter \<open>os_Open\<close>: the bytes
  of the regular file at that path, or the error.
\<close>

definition NewLogFile ::
  "(string \<Rightarrow> error + byte list) \<Rightarrow> string \<Rightarrow> int \<Rightarrow> error + LogFile" where
  "NewLogFile os_Open filename initialOffset =
     (case os_Open filename of
        Inl err \<Rightarrow> Inl err
      | Inr bytes \<Rightarrow>
          (let f = \<lparr>data = bytes, pos = 0\<rparr> in
           if initialOffset > 0 then
             (case File_Seek f initialOffset of
                Inl err \<Rightarrow> Inl err
              | Inr (f', off) \<Rightarrow> Inr \<lparr>file' = Some f', Filename = filename, offset = off\<rparr>)
           else Inr \<lparr>file' = Some f, Filename = filename, offset = 0\<rparr>))"

text \<open>
  \<^verbatim>\<open>ReadNewLines\<close>: the value returned (\<open>Inl\<close> the error, \<open>Inr\<close> the buffer), the cursor
  after the call, and the line logged. \<^verbatim>\<open>Stat\<close> on a nil file returns \<open>ErrInvalid\<close>.
  \<^verbatim>\<open>make([]byte, bytesToRead)\<close> panics when \<open>bytesToRead\<close> is negative. The offset is
  assigned the statted size right after the read, before the read's error is looked at.
\<close>

definition ReadNewLines ::
  "io_env \<Rightarrow> LogFile \<Rightarrow> ((error + byte list) \<times> LogFile \<times> log_entry list) outcome" where
  "ReadNewLines env f =
     (case file' f of
        None \<Rightarrow> Returns (Inl ErrInvalid, f, [])
      | Some fl \<Rightarrow>
          (case File_Stat env fl of
             Inl err \<Rightarrow> Returns (Inl err, f, [])
           | Inr sz \<Rightarrow>
               (let bytesToRead = sz - offset f in
                if bytesToRead < 0 then Panics ''makeslice: len out of range''
                else
                  (case File_Read env fl (replicate (nat bytesToRead) NUL) of
                     ((buf, n, err), fl') \<Rightarrow>
                       (let f' = f\<lparr>file' := Some fl', offset := sz\<rparr>;
                            logged = [LogRead n bytesToRead err]
                        in if err \<noteq> None \<and> err \<noteq> Some EOF
                           then Returns (Inl (the err), f', logged)
                           else Returns (Inr buf, f', logged))))))"

definition GetOffset :: "LogFile \<Rightarrow> int" where
  "GetOffset f = offset f"

definition Close :: "LogFile \<Rightarrow> LogFile" where
  "Close f = (case file' f of None \<Rightarrow> f | Some fl \<Rightarrow> f\<lparr>file' := None\<rparr>)"

section \<open>The libraries the program calls\<close>

text \<open>
  A compiled \<^verbatim>\<open>*regexp.Regexp\<close> is given by what the \<^verbatim>\<open>regexp\<close> package computes with
  it: \<open>all_matches re b\<close> is the list of all successive non-overlapping matches of the
  expression in \<open>b\<close>, leftmost first, each as the index pairs of the match and of its
  groups; \<open>expand re template src match\<close> is \<open>template\<close> with its \<^verbatim>\<open>$1\<close>, \<^verbatim>\<open>${name}\<close>
  variables replaced by the groups of \<open>match\<close> in \<open>src\<close>; \<open>match_string re s\<close> says
  whether \<open>s\<close> contains a match.
\<close>

record regexp =
  all_matches :: "byte list \<Rightarrow> int list list"
  expand :: "byte list \<Rightarrow> byte list \<Rightarrow> int list \<Rightarrow> byte list"
  match_string :: "string \<Rightarrow> bool"

text \<open>
  \<^verbatim>\<open>re.FindAllSubmatchIndex(b, n)\<close>: at most \<open>n\<close> matches when \<open>n \<ge> 0\<close>, all of them when
  \<open>n < 0\<close>.
\<close>

definition FindAllSubmatchIndex :: "regexp \<Rightarrow> byte list \<Rightarrow> int \<Rightarrow> int list list" where
  "FindAllSubmatchIndex re b n =
     (if n < 0 then all_matches re b else take (nat n) (all_matches re b))"

text \<open>\<^verbatim>\<open>re.Expand(dst, template, src, match)\<close> appends the expansion to \<open>dst\<close>.\<close>

definition Expand ::
  "regexp \<Rightarrow> byte list \<Rightarrow> byte list \<Rightarrow> byte list \<Rightarrow> int list \<Rightarrow> byte list" where
  "Expand re dst template src match = dst @ expand re template src match"

definition MatchString :: "regexp \<Rightarrow> string \<Rightarrow> bool" where
  "MatchString re s = match_string re s"

text \<open>
  \<^verbatim>\<open>text/template\<close>: \<open>template_Parse\<close> is
  \<^verbatim>\<open>template.New("test").Funcs(templateFunctions).Parse(text)\<close>, and \<open>template_Execute t\<close>
  is \<^verbatim>\<open>t.Execute(&tpl, nil)\<close>: what was written to the buffer, and the error if the
  execution stopped on one (what was written before it stays in the buffer).
\<close>

record 't text_template =
  template_Parse :: "string \<Rightarrow> error + 't"
  template_Execute :: "'t \<Rightarrow> string \<times> error option"

text \<open>
  The rest of the host: \<^verbatim>\<open>os.Open\<close> (the bytes of the file opened), \<^verbatim>\<open>ioutil.ReadFile\<close>,
  \<^verbatim>\<open>ioutil.ReadDir\<close> (each entry's name and whether it is a directory), \<^verbatim>\<open>path.Join\<close>
  and \<^verbatim>\<open>regexp.Compile\<close>.
\<close>

record host =
  os_Open :: "string \<Rightarrow> error + byte list"
  ioutil_ReadFile :: "string \<Rightarrow> error + byte list"
  ioutil_ReadDir :: "string \<Rightarrow> error + (string \<times> bool) list"
  path_Join :: "string \<Rightarrow> string \<Rightarrow> string"
  regexp_Compile :: "string \<Rightarrow> error + regexp"

section \<open>main.go: configuration and rules\<close>

text \<open>
  The \<^verbatim>\<open>config\<close> struct. \<open>Events\<close> is a Go map from the rule's name to its settings: it
  has no order. The two records below share field names in the source (\<open>EventType\<close>,
  \<open>ChannelName\<close>); the configuration's are prefixed here.
\<close>

record event_cfg =
  Src :: string
  Dest :: string
  cfg_EventType :: string
  cfg_ChannelName :: string

record config =
  Input_Files :: "string list"
  Input_Directories :: "string list"
  Input_Filter :: string
  Events :: "string \<rightharpoonup> event_cfg"

record event =
  Regex :: regexp
  Template :: "byte list"
  EventType :: string
  ChannelName :: string

section \<open>main.go: handleWrite\<close>

text \<open>
  The inner loop of \<open>handleWrite\<close>, over the matches: each match is logged, expanded and
  parsed; a parse error is logged and the loop continues with the next match; otherwise
  the template is executed, the error of \<^verbatim>\<open>Execute\<close> is not looked at, and what is in the
  buffer is logged.
\<close>

fun handleWrite_matches ::
  "'t text_template \<Rightarrow> event \<Rightarrow> byte list \<Rightarrow> int list list \<Rightarrow> log_entry list" where
  "handleWrite_matches T event lines [] = []"
| "handleWrite_matches T event lines (submatches # rest) =
     LogFound #
     (let step = Expand (Regex event) [] (Template event) lines submatches in
      case template_Parse T step of
        Inl err \<Rightarrow> LogError err # handleWrite_matches T event lines rest
      | Inr t \<Rightarrow>
          LogOutput (fst (template_Execute T t)) # handleWrite_matches T event lines rest)"

text \<open>The outer loop, over the rules (the slice \<open>events\<close>, in slice order).\<close>

fun handleWrite_events ::
  "'t text_template \<Rightarrow> event list \<Rightarrow> byte list \<Rightarrow> log_entry list" where
  "handleWrite_events T [] lines = []"
| "handleWrite_events T (event # events) lines =
     LogLooking (EventType event) #
     handleWrite_matches T event lines (FindAllSubmatchIndex (Regex event) lines (- 1)) @
     handleWrite_events T events lines"

text \<open>
  \<open>handleWrite(events, file)\<close>: the cursor after the call and the lines logged.
  \<^verbatim>\<open>lines, _ := file.ReadNewLines()\<close> drops the error; \<open>lines\<close> is then nil, the empty
  slice.
\<close>

definition handleWrite ::
  "'t text_template \<Rightarrow> io_env \<Rightarrow> event list \<Rightarrow> LogFile option \<Rightarrow>
   (LogFile option \<times> log_entry list) outcome" where
  "handleWrite T env events fo =
     (case fo of
        None \<Rightarrow> Returns (None, [LogNoFile])
      | Some f \<Rightarrow>
          (case ReadNewLines env f of
             Panics msg \<Rightarrow> Panics msg
           | Returns (r, f', logged) \<Rightarrow>
               (let lines = (case r of Inl err \<Rightarrow> [] | Inr buf \<Rightarrow> buf) in
                Returns (Some f',
                  LogOldOffset (GetOffset f) # logged @
                  LogNewOffset (GetOffset f') # handleWrite_events T events lines))))"

section \<open>main.go: createEventList\<close>

text \<open>
  \<^verbatim>\<open>for key, eventCfg := range cfg.Events\<close> visits the keys of the map in an order the
  Go runtime chooses at each execution. That order is the argument \<open>keys\<close>: a list that
  holds every key of the map once.
\<close>

fun createEventList_range ::
  "host \<Rightarrow> (string \<rightharpoonup> event_cfg) \<Rightarrow> string list \<Rightarrow> event list \<times> log_entry list \<Rightarrow>
   event list \<times> log_entry list" where
  "createEventList_range H m [] acc = acc"
| "createEventList_range H m (key # keys) (events, logged) =
     (case m key of
        None \<Rightarrow> createEventList_range H m keys (events, logged)
      | Some eventCfg \<Rightarrow>
          (case regexp_Compile H (Src eventCfg) of
             Inl err \<Rightarrow>
               createEventList_range H m keys
                 (events, logged @ [LogNoRegex (Src eventCfg) key])
           | Inr re \<Rightarrow>
               (case ioutil_ReadFile H (Dest eventCfg) of
                  Inl err \<Rightarrow>
                    createEventList_range H m keys
                      (events, logged @ [LogNoTemplate (Dest eventCfg) key])
                | Inr template \<Rightarrow>
                    createEventList_range H m keys
                      (events @
                         [\<lparr>Regex = re, Template = template,
                           EventType = cfg_EventType eventCfg,
                           ChannelName = cfg_ChannelName eventCfg\<rparr>],
                       logged))))"

definition createEventList ::
  "host \<Rightarrow> config \<Rightarrow> string list \<Rightarrow> event list \<times> log_entry list" where
  "createEventList H cfg keys =
     (if length keys \<le> 0 then ([], [])
      else createEventList_range H (Events cfg) keys ([], []))"

section \<open>main.go: createLogFileList\<close>

fun getFilesFromDir_range ::
  "host \<Rightarrow> string \<Rightarrow> (string \<times> bool) list \<Rightarrow> string list \<Rightarrow> string list" where
  "getFilesFromDir_range H dirPath [] files = files"
| "getFilesFromDir_range H dirPath ((name, isDir) # entries) files =
     (if isDir then getFilesFromDir_range H dirPath entries files
      else getFilesFromDir_range H dirPath entries (files @ [path_Join H dirPath name]))"

definition getFilesFromDir :: "host \<Rightarrow> string \<Rightarrow> error + string list" where
  "getFilesFromDir H dirPath =
     (case ioutil_ReadDir H dirPath of
        Inl err \<Rightarrow> Inl err
      | Inr entries \<Rightarrow> Inr (getFilesFromDir_range H dirPath entries []))"

text \<open>The source's \<open>filter(vs, f)\<close>.\<close>

fun filter_go :: "string list \<Rightarrow> (string \<Rightarrow> bool) \<Rightarrow> string list \<Rightarrow> string list" where
  "filter_go [] f vsf = vsf"
| "filter_go (v # vs) f vsf = (if f v then filter_go vs f (vsf @ [v]) else filter_go vs f vsf)"

fun createLogFileList_dirs :: "host \<Rightarrow> string list \<Rightarrow> string list \<Rightarrow> string list" where
  "createLogFileList_dirs H [] filenames = filenames"
| "createLogFileList_dirs H (path # paths) filenames =
     (case getFilesFromDir H path of
        Inl err \<Rightarrow> createLogFileList_dirs H paths filenames
      | Inr files \<Rightarrow> createLogFileList_dirs H paths (filenames @ files))"

fun createLogFileList_open ::
  "host \<Rightarrow> string list \<Rightarrow> (string \<rightharpoonup> LogFile) \<times> log_entry list \<Rightarrow>
   (string \<rightharpoonup> LogFile) \<times> log_entry list" where
  "createLogFileList_open H [] acc = acc"
| "createLogFileList_open H (filename # filenames) (logFiles, logged) =
     (case NewLogFile (os_Open H) filename 0 of
        Inl err \<Rightarrow>
          createLogFileList_open H filenames (logFiles, logged @ [LogNoWatch filename err])
      | Inr logFile \<Rightarrow>
          createLogFileList_open H filenames (logFiles(filename \<mapsto> logFile), logged))"

text \<open>
  \<open>createLogFileList\<close>: the explicit files, then the files of each directory, are put in
  one list; when the filter compiles, the whole list is filtered by it; every file of the
  list that opens is registered under its name.
\<close>

definition createLogFileList ::
  "host \<Rightarrow> config \<Rightarrow> (string \<rightharpoonup> LogFile) \<times> log_entry list" where
  "createLogFileList H cfg =
     (let filenames = createLogFileList_dirs H (Input_Directories cfg) (Input_Files cfg) in
      case regexp_Compile H (Input_Filter cfg) of
        Inl err \<Rightarrow>
          createLogFileList_open H filenames
            (Map.empty, [LogBadFilter (Input_Filter cfg) err])
      | Inr re \<Rightarrow>
          createLogFileList_open H (filter_go filenames (MatchString re) []) (Map.empty, []))"

section \<open>Runs of a cursor, and what the claims speak of\<close>

text \<open>
  A run of one cursor: other processes append bytes to the file (the open file sees them;
  its position stays), and the program calls \<open>ReadNewLines\<close>, each call under what the
  operating system does during it. \<open>run_ops\<close> records for each call the offset before
  (\<open>GetOffset\<close>), the value returned and the offset after.
\<close>

datatype file_op = Append "byte list" | ReadNew io_env

definition append_bytes :: "byte list \<Rightarrow> LogFile \<Rightarrow> LogFile" where
  "append_bytes bs f = f\<lparr>file' := map_option (\<lambda>fl. fl\<lparr>data := data fl @ bs\<rparr>) (file' f)\<rparr>"

fun run_ops ::
  "file_op list \<Rightarrow> LogFile \<Rightarrow> ((int \<times> (error + byte list) \<times> int) list \<times> LogFile) outcome" where
  "run_ops [] f = Returns ([], f)"
| "run_ops (Append bs # ops) f = run_ops ops (append_bytes bs f)"
| "run_ops (ReadNew env # ops) f =
     (case ReadNewLines env f of
        Panics msg \<Rightarrow> Panics msg
      | Returns (r, f', logged) \<Rightarrow>
          (case run_ops ops f' of
             Panics msg \<Rightarrow> Panics msg
           | Returns (calls, f'') \<Rightarrow> Returns ((GetOffset f, r, GetOffset f') # calls, f'')))"

text \<open>All bytes appended during a run, and all bytes the calls of a run returned.\<close>

fun appended :: "file_op list \<Rightarrow> byte list" where
  "appended [] = []"
| "appended (Append bs # ops) = bs @ appended ops"
| "appended (ReadNew env # ops) = appended ops"

fun returned :: "(int \<times> (error + byte list) \<times> int) list \<Rightarrow> byte list" where
  "returned [] = []"
| "returned ((old, Inl err, new) # calls) = returned calls"
| "returned ((old, Inr buf, new) # calls) = buf @ returned calls"

text \<open>
  The calls return contiguous ranges of \<open>content\<close> from \<open>start\<close> on: each call returns a
  buffer, the buffer is the bytes of \<open>content\<close> from the offset before the call to the
  offset after it, and the call starts where the one before ended.
\<close>

fun contiguous :: "int \<Rightarrow> (int \<times> (error + byte list) \<times> int) list \<Rightarrow> byte list \<Rightarrow> bool" where
  "contiguous start [] content = True"
| "contiguous start ((old, Inl err, new) # calls) content = False"
| "contiguous start ((old, Inr buf, new) # calls) content =
     (old = start \<and> new = old + int (length buf) \<and>
      buf = take (length buf) (drop (nat old) content) \<and>
      contiguous new calls content)"

text \<open>
  The operating system at its best during a call: \<^verbatim>\<open>fstat\<close> succeeds and \<^verbatim>\<open>read\<close>
  delivers every byte asked for that the file has.
\<close>

definition complete :: "io_env \<Rightarrow> bool" where
  "complete env = (stat_err env = None \<and> read_err env = None \<and> read_avail env = None)"

fun complete_op :: "file_op \<Rightarrow> bool" where
  "complete_op (Append bs) = True"
| "complete_op (ReadNew env) = complete env"

fun is_read :: "file_op \<Rightarrow> bool" where
  "is_read (Append bs) = False"
| "is_read (ReadNew env) = True"

text \<open>
  What one match of a rule comes to in \<open>handleWrite\<close>: the error of parsing the expanded
  template, or what executing it wrote. \<open>results\<close> reads these off the log, and
  \<open>outputs\<close> the rendered payloads alone.
\<close>

definition render_match ::
  "'t text_template \<Rightarrow> event \<Rightarrow> byte list \<Rightarrow> int list \<Rightarrow> error + string" where
  "render_match T event lines submatches =
     (case template_Parse T (Expand (Regex event) [] (Template event) lines submatches) of
        Inl err \<Rightarrow> Inl err
      | Inr t \<Rightarrow> Inr (fst (template_Execute T t)))"

fun results :: "log_entry list \<Rightarrow> (error + string) list" where
  "results [] = []"
| "results (LogError err # logged) = Inl err # results logged"
| "results (LogOutput s # logged) = Inr s # results logged"
| "results (entry # logged) = results logged"

fun outputs :: "log_entry list \<Rightarrow> string list" where
  "outputs [] = []"
| "outputs (LogOutput s # logged) = s # outputs logged"
| "outputs (entry # logged) = outputs logged"

text \<open>
  The rule \<open>createEventList\<close> builds for one key of the map: none when the key is not
  in the map, the pattern does not compile or the template file cannot be read.
\<close>

definition load_event :: "host \<Rightarrow> (string \<rightharpoonup> event_cfg) \<Rightarrow> string \<Rightarrow> event option" where
  "load_event H m key =
     (case m key of
        None \<Rightarrow> None
      | Some eventCfg \<Rightarrow>
          (case regexp_Compile H (Src eventCfg) of
             Inl err \<Rightarrow> None
           | Inr re \<Rightarrow>
               (case ioutil_ReadFile H (Dest eventCfg) of
                  Inl err \<Rightarrow> None
                | Inr template \<Rightarrow>
                    Some \<lparr>Regex = re, Template = template,
                          EventType = cfg_EventType eventCfg,
                          ChannelName = cfg_ChannelName eventCfg\<rparr>)))"

text \<open>
  The names \<open>createLogFileList\<close> collects before filtering, and whether the filter
  keeps a name: every name when the filter does not compile.
\<close>

definition candidates :: "host \<Rightarrow> config \<Rightarrow> string list" where
  "candidates H cfg = createLogFileList_dirs H (Input_Directories cfg) (Input_Files cfg)"

definition kept :: "host \<Rightarrow> config \<Rightarrow> string \<Rightarrow> bool" where
  "kept H cfg filename =
     (case regexp_Compile H (Input_Filter cfg) of
        Inl err \<Rightarrow> True
      | Inr re \<Rightarrow> MatchString re filename)"

section \<open>Example inputs\<close>

text \<open>
  The inputs of the examples below. A library value is given here on the arguments the
  examples put to it, and is of no account elsewhere. \<open>rx_start\<close> is the regular
  expression \<^verbatim>\<open>^\<close>: one empty match at the start of every buffer; it has no group, and a
  template without \<^verbatim>\<open>$\<close> is expanded to itself. \<open>rx_calc\<close> is \<^verbatim>\<open>calc=([a-z0-9]+)\<close>: on the
  buffer \<^verbatim>\<open>calc=1 calc=len calc=3\<close> it has three matches, whose groups are \<^verbatim>\<open>1\<close>, \<^verbatim>\<open>len\<close>
  and \<^verbatim>\<open>3\<close>, and none on the buffers \<^verbatim>\<open>abc\<close> and the empty one; the template
  \<^verbatim>\<open>v={{$1}};\<close> is expanded with the group of the match in place of \<^verbatim>\<open>$1\<close>. \<open>rx_log\<close> is
  \<^verbatim>\<open>[.]log$\<close> as a filter of names: it matches the names that end in \<^verbatim>\<open>.log\<close>.
\<close>

definition rx_start :: regexp where
  "rx_start =
     \<lparr>all_matches = (\<lambda>b. [[0, 0]]),
      expand = (\<lambda>template src match. template),
      match_string = (\<lambda>s. True)\<rparr>"

definition rx_calc :: regexp where
  "rx_calc =
     \<lparr>all_matches =
        (\<lambda>b. if b = ''calc=1 calc=len calc=3''
             then [[0, 6, 5, 6], [7, 15, 12, 15], [16, 22, 21, 22]] else []),
      expand =
        (\<lambda>template src match.
           if template = ''v={{$1}};''
           then ''v={{'' @ take (nat (match ! 3 - match ! 2)) (drop (nat (match ! 2)) src) @ ''}};''
           else template),
      match_string = (\<lambda>s. s = ''calc=1 calc=len calc=3'')\<rparr>"

definition rx_log :: regexp where
  "rx_log =
     \<lparr>all_matches = (\<lambda>b. []),
      expand = (\<lambda>template src match. template),
      match_string = (\<lambda>s. drop (length s - 4) s = ''.log'')\<rparr>"

text \<open>
  A template library on the templates of the examples: a template is kept as its text;
  \<^verbatim>\<open>{{\<close> alone does not parse; \<^verbatim>\<open>v={{len}};\<close> parses, and its execution writes \<^verbatim>\<open>v=\<close> and
  stops with an error (\<^verbatim>\<open>len\<close> is called without its argument); \<^verbatim>\<open>v={{1}};\<close> and
  \<^verbatim>\<open>v={{3}};\<close> print their number; a text without action prints itself.
\<close>

definition demo_template :: "string text_template" where
  "demo_template =
     \<lparr>template_Parse =
        (\<lambda>s. if s = ''{{'' then Inl (SyntaxError ''unclosed action'') else Inr s),
      template_Execute =
        (\<lambda>t. if t = ''v={{len}};''
               then (''v='', Some (ExecError ''wrong number of args for len''))
             else if t = ''v={{1}};'' then (''v=1;'', None)
             else if t = ''v={{3}};'' then (''v=3;'', None)
             else (t, None))\<rparr>"

definition ping_rule :: event where
  "ping_rule = \<lparr>Regex = rx_start, Template = ''ping'', EventType = ''ping'', ChannelName = ''ops''\<rparr>"

definition calc_rule :: event where
  "calc_rule =
     \<lparr>Regex = rx_calc, Template = ''v={{$1}};'', EventType = ''calc'', ChannelName = ''ops''\<rparr>"

text \<open>
  A host with three files, \<^verbatim>\<open>/var/log/a.log\<close>, \<^verbatim>\<open>/var/log/b.log\<close> and \<^verbatim>\<open>/var/log/a.txt\<close>,
  in the directory \<^verbatim>\<open>/var/log\<close>, the file \<^verbatim>\<open>/srv/app.txt\<close> and two template files; and
  a configuration that lists \<^verbatim>\<open>/srv/app.txt\<close> as a file and \<^verbatim>\<open>/var/log\<close> as a directory,
  with the filter \<^verbatim>\<open>[.]log$\<close>, and has two rules.
\<close>

definition demo_host :: host where
  "demo_host =
     \<lparr>os_Open =
        (\<lambda>p. if p = ''/var/log/a.log'' then Inr ''ab''
             else if p = ''/var/log/b.log'' then Inr []
             else if p = ''/var/log/a.txt'' then Inr ''hello''
             else if p = ''/srv/app.txt'' then Inr ''x''
             else Inl (PathError ''no such file or directory'')),
      ioutil_ReadFile =
        (\<lambda>p. if p = ''/etc/sest/ping.tpl'' then Inr ''ping''
             else if p = ''/etc/sest/calc.tpl'' then Inr ''v={{$1}};''
             else Inl (PathError ''no such file or directory'')),
      ioutil_ReadDir =
        (\<lambda>p. if p = ''/var/log''
             then Inr [(''a.log'', False), (''a.txt'', False), (''b.log'', False)]
             else Inl (PathError ''no such file or directory'')),
      path_Join = (\<lambda>dir name. dir @ ''/'' @ name),
      regexp_Compile =
        (\<lambda>s. if s = ''^'' then Inr rx_start
             else if s = ''calc=([a-z0-9]+)'' then Inr rx_calc
             else if s = ''[.]log$'' then Inr rx_log
             else Inl (SyntaxError ''missing closing )''))\<rparr>"

definition demo_cfg :: config where
  "demo_cfg =
     \<lparr>Input_Files = [''/srv/app.txt''],
      Input_Directories = [''/var/log''],
      Input_Filter = ''[.]log$'',
      Events =
        [''calc'' \<mapsto> \<lparr>Src = ''calc=([a-z0-9]+)'', Dest = ''/etc/sest/calc.tpl'',
                      cfg_EventType = ''calc'', cfg_ChannelName = ''ops''\<rparr>,
         ''ping'' \<mapsto> \<lparr>Src = ''^'', Dest = ''/etc/sest/ping.tpl'',
                      cfg_EventType = ''ping'', cfg_ChannelName = ''ops''\<rparr>]\<rparr>"

definition abc_file :: LogFile where
  "abc_file = \<lparr>file' = Some \<lparr>data = ''abc'', pos = 0\<rparr>, Filename = ''/tmp/app.log'', offset = 0\<rparr>"

section \<open>Basic facts about the read\<close>

lemma File_Read_data: "data (snd (File_Read env fl buf)) = data fl"
  by (simp add: File_Read_def Let_def split: option.splits)

lemma File_Read_length: "length (fst (fst (File_Read env fl buf))) = length buf"
  by (auto simp: File_Read_def Let_def split: option.splits)

text \<open>The other two methods of the cursor leave the offset alone.\<close>

lemma Close_offset: "offset (Close f) = offset f \<and> GetOffset (Close f) = GetOffset f"
  by (simp add: Close_def GetOffset_def split: option.splits)

lemma File_Read_shape:
  "\<exists>n. fst (snd (fst (File_Read env fl buf))) = int n \<and> n \<le> length buf \<and>
       take n (fst (fst (File_Read env fl buf))) = take n (drop (pos fl) (data fl)) \<and>
       drop n (fst (fst (File_Read env fl buf))) = drop n buf \<and>
       pos (snd (File_Read env fl buf)) = pos fl + n"
proof (cases "length buf = 0 \<or> read_err env \<noteq> None")
  case True
  then show ?thesis
    by (intro exI [of _ 0]) (auto simp: File_Read_def)
next
  case False
  define m where "m = (case read_avail env of
                         None \<Rightarrow> min (length buf) (length (drop (pos fl) (data fl)))
                       | Some c \<Rightarrow> min (length buf) (min c (length (drop (pos fl) (data fl)))))"
  have le: "m \<le> length buf" "m \<le> length (drop (pos fl) (data fl))"
    by (auto simp: m_def split: option.splits)
  show ?thesis
  proof (cases "m = 0")
    case True
    with False show ?thesis
      by (intro exI [of _ 0]) (auto simp: File_Read_def Let_def m_def)
  next
    case mz: False
    have "File_Read env fl buf =
            ((take m (drop (pos fl) (data fl)) @ drop m buf, int m, None), fl\<lparr>pos := pos fl + m\<rparr>)"
      using False mz by (auto simp: File_Read_def Let_def m_def)
    with le show ?thesis
      by (intro exI [of _ m]) simp
  qed
qed

text \<open>What a call that returned a buffer did.\<close>

lemma ReadNewLines_Inr:
  assumes "ReadNewLines env f = Returns (Inr buf, f1, l)"
  obtains fl where "file' f = Some fl" "stat_err env = None"
    "offset f \<le> int (length (data fl))"
    "f1 = f\<lparr>file' := Some (snd (File_Read env fl
             (replicate (nat (int (length (data fl)) - offset f)) NUL))),
           offset := int (length (data fl))\<rparr>"
    "buf = fst (fst (File_Read env fl (replicate (nat (int (length (data fl)) - offset f)) NUL)))"
    "l = [LogRead
           (fst (snd (fst (File_Read env fl
              (replicate (nat (int (length (data fl)) - offset f)) NUL)))))
           (int (length (data fl)) - offset f)
           (snd (snd (fst (File_Read env fl
              (replicate (nat (int (length (data fl)) - offset f)) NUL)))))]"
  using assms
  by (auto simp: ReadNewLines_def File_Stat_def Let_def
      split: option.splits sum.splits if_splits prod.splits)

section \<open>The loops of handleWrite\<close>

lemma results_matches:
  "results (handleWrite_matches T e lines ms) = map (render_match T e lines) ms"
  by (induction ms) (auto simp: render_match_def Let_def split: sum.splits)

lemma outputs_matches:
  "\<forall>m\<in>set ms. \<exists>s. render_match T e lines m = Inr s \<Longrightarrow>
   map Inr (outputs (handleWrite_matches T e lines ms)) = map (render_match T e lines) ms"
  by (induction ms) (auto simp: render_match_def Let_def split: sum.splits)

lemma handleWrite_events_concat:
  "handleWrite_events T events lines =
     concat (map (\<lambda>e. LogLooking (EventType e) #
                       handleWrite_matches T e lines (all_matches (Regex e) lines)) events)"
  by (induction events) (auto simp: FindAllSubmatchIndex_def)

section \<open>The offset after a short or failed read\<close>

text \<open>
  Claim C2 (the offset advances by the bytes actually read, and not past them when the
  read fails or is short) does not hold of \<open>ReadNewLines\<close>. On a file of three bytes
  and a cursor at 0, a read that delivers one byte leaves the file position at 1 and the
  offset at 3; a read that fails leaves the position at 0 and the offset at 3, and the
  call returns the error. After the short read, when two bytes are appended, the next call
  reports the range from 3 to 5 and returns the bytes at 1 and 2.
\<close>

theorem ReadNewLines_offset_ignores_bytes_read:
  "ReadNewLines \<lparr>stat_err = None, read_err = None, read_avail = Some 1\<rparr> abc_file =
     Returns (Inr [CHR ''a'', NUL, NUL],
              \<lparr>file' = Some \<lparr>data = ''abc'', pos = 1\<rparr>, Filename = ''/tmp/app.log'', offset = 3\<rparr>,
              [LogRead 1 3 None]) \<and>
   ReadNewLines
     \<lparr>stat_err = None, read_err = Some (PathError ''input/output error''), read_avail = None\<rparr>
     abc_file =
     Returns (Inl (PathError ''input/output error''),
              \<lparr>file' = Some \<lparr>data = ''abc'', pos = 0\<rparr>, Filename = ''/tmp/app.log'', offset = 3\<rparr>,
              [LogRead 0 3 (Some (PathError ''input/output error''))]) \<and>
   run_ops [ReadNew \<lparr>stat_err = None, read_err = None, read_avail = Some 1\<rparr>, Append ''de'',
            ReadNew io_ok] abc_file =
     Returns ([(0, Inr [CHR ''a'', NUL, NUL], 3), (3, Inr ''bc'', 5)],
              \<lparr>file' = Some \<lparr>data = ''abcde'', pos = 3\<rparr>, Filename = ''/tmp/app.log'', offset = 5\<rparr>)"
  by (simp add: ReadNewLines_def File_Stat_def File_Read_def abc_file_def Let_def numeral_3_eq_3
      numeral_2_eq_2 append_bytes_def io_ok_def GetOffset_def)

section \<open>A file that shrank\<close>

text \<open>
  Claim C3 (a file smaller than the offset is handled without a crash) does not hold:
  whenever the statted size is below the offset, \<open>ReadNewLines\<close> panics in
  \<^verbatim>\<open>make([]byte, bytesToRead)\<close>.
\<close>

theorem ReadNewLines_shrunk_panics:
  "file' f = Some fl \<Longrightarrow> stat_err env = None \<Longrightarrow> int (length (data fl)) < offset f \<Longrightarrow>
   ReadNewLines env f = Panics ''makeslice: len out of range''"
  by (simp add: ReadNewLines_def File_Stat_def)

text \<open>A file read up to byte 5 and then cut to two bytes.\<close>

theorem ReadNewLines_shrunk_panics_witness:
  "ReadNewLines io_ok
     \<lparr>file' = Some \<lparr>data = ''ab'', pos = 5\<rparr>, Filename = ''/tmp/app.log'', offset = 5\<rparr> =
   Panics ''makeslice: len out of range''"
  using ReadNewLines_shrunk_panics
    [of "\<lparr>file' = Some \<lparr>data = ''ab'', pos = 5\<rparr>, Filename = ''/tmp/app.log'', offset = 5\<rparr>"
        "\<lparr>data = ''ab'', pos = 5\<rparr>" io_ok]
  by (simp add: io_ok_def)

section \<open>A failed read in handleWrite\<close>

text \<open>
  Claim C4, as amended: when the read of a write notification fails, \<open>handleWrite\<close>
  drops the error and goes on: it logs the old and the new offset (and, between them,
  the line \<open>ReadNewLines\<close> logged itself: none when \<^verbatim>\<open>Stat\<close> failed, the read's line with
  its error otherwise), and runs every rule over the empty buffer.
\<close>

theorem handleWrite_failed_read:
  assumes "ReadNewLines env f = Returns (Inl err, f1, l)"
  shows "handleWrite T env events (Some f) =
           Returns (Some f1,
             LogOldOffset (offset f) # l @
             LogNewOffset (offset f1) # handleWrite_events T events []) \<and>
         (l = [] \<or> (\<exists>k. l = [LogRead 0 k (Some err)]))"
proof -
  have "handleWrite T env events (Some f) =
           Returns (Some f1,
             LogOldOffset (offset f) # l @
             LogNewOffset (offset f1) # handleWrite_events T events [])"
    by (simp add: handleWrite_def assms GetOffset_def)
  moreover have "l = [] \<or> (\<exists>k. l = [LogRead 0 k (Some err)])"
    using assms
    by (auto simp: ReadNewLines_def File_Stat_def File_Read_def Let_def
        split: option.splits sum.splits if_splits prod.splits)
  ultimately show ?thesis by blast
qed

theorem handleWrite_failed_read_witness:
  "ReadNewLines
     \<lparr>stat_err = None, read_err = Some (PathError ''input/output error''), read_avail = None\<rparr>
     abc_file =
     Returns (Inl (PathError ''input/output error''),
              \<lparr>file' = Some \<lparr>data = ''abc'', pos = 0\<rparr>, Filename = ''/tmp/app.log'', offset = 3\<rparr>,
              [LogRead 0 3 (Some (PathError ''input/output error''))]) \<and>
   handleWrite demo_template
     \<lparr>stat_err = None, read_err = Some (PathError ''input/output error''), read_avail = None\<rparr>
     [calc_rule] (Some abc_file) =
     Returns (Some \<lparr>file' = Some \<lparr>data = ''abc'', pos = 0\<rparr>, Filename = ''/tmp/app.log'', offset = 3\<rparr>,
       [LogOldOffset 0, LogRead 0 3 (Some (PathError ''input/output error'')), LogNewOffset 3,
        LogLooking ''calc''])"
proof -
  let ?env = "\<lparr>stat_err = None, read_err = Some (PathError ''input/output error''),
               read_avail = None\<rparr>"
  let ?f1 = "\<lparr>file' = Some \<lparr>data = ''abc'', pos = 0\<rparr>, Filename = ''/tmp/app.log'', offset = 3\<rparr>"
  have r: "ReadNewLines ?env abc_file =
     Returns (Inl (PathError ''input/output error''), ?f1,
              [LogRead 0 3 (Some (PathError ''input/output error''))])"
    by (simp add: ReadNewLines_def File_Stat_def File_Read_def abc_file_def Let_def)
  from handleWrite_failed_read [OF r, of demo_template "[calc_rule]"] r show ?thesis
    by (simp add: abc_file_def calc_rule_def rx_calc_def FindAllSubmatchIndex_def)
qed

text \<open>
  The claim as stated fails: the read fails, and the rule \<open>ping_rule\<close>, whose pattern
  \<^verbatim>\<open>^\<close> matches the empty buffer, is run and its payload is logged.
\<close>

theorem handleWrite_failed_read_counterexample:
  "handleWrite demo_template
     \<lparr>stat_err = None, read_err = Some (PathError ''input/output error''), read_avail = None\<rparr>
     [ping_rule] (Some abc_file) =
   Returns (Some \<lparr>file' = Some \<lparr>data = ''abc'', pos = 0\<rparr>, Filename = ''/tmp/app.log'', offset = 3\<rparr>,
     [LogOldOffset 0, LogRead 0 3 (Some (PathError ''input/output error'')), LogNewOffset 3,
      LogLooking ''ping'', LogFound, LogOutput ''ping''])"
  by (simp add: handleWrite_def ReadNewLines_def File_Stat_def File_Read_def abc_file_def Let_def
      GetOffset_def ping_rule_def rx_start_def demo_template_def FindAllSubmatchIndex_def
      Expand_def)

section \<open>Every match of a rule\<close>

text \<open>
  Claim C6: for every buffer and every rule, the extraction goes through all successive
  non-overlapping matches of the pattern in the buffer (\<open>FindAllSubmatchIndex\<close> is called
  with \<open>n = -1\<close>), in their order, and each match comes to one result: the parse error of
  its expanded template, or its rendered output. When every expanded template parses,
  the outputs are the renderings of all the matches, one per match and in their order.
\<close>

theorem handleWrite_all_matches:
  "results (handleWrite_events T [e] buf) =
     map (render_match T e buf) (all_matches (Regex e) buf) \<and>
   ((\<forall>m\<in>set (all_matches (Regex e) buf). \<exists>s. render_match T e buf m = Inr s) \<longrightarrow>
     map Inr (outputs (handleWrite_events T [e] buf)) =
       map (render_match T e buf) (all_matches (Regex e) buf))"
  by (simp add: FindAllSubmatchIndex_def results_matches outputs_matches)

theorem handleWrite_all_matches_witness:
  "results (handleWrite_events demo_template [calc_rule] ''calc=1 calc=len calc=3'') =
     [Inr ''v=1;'', Inr ''v='', Inr ''v=3;''] \<and>
   all_matches (Regex calc_rule) ''calc=1 calc=len calc=3'' =
     [[0, 6, 5, 6], [7, 15, 12, 15], [16, 22, 21, 22]] \<and>
   outputs (handleWrite_events demo_template [calc_rule] ''calc=1 calc=len calc=3'') =
     [''v=1;'', ''v='', ''v=3;'']"
  using handleWrite_all_matches [of demo_template calc_rule "''calc=1 calc=len calc=3''"]
  by (simp add: calc_rule_def rx_calc_def demo_template_def render_match_def Expand_def
      FindAllSubmatchIndex_def)

section \<open>A template that fails\<close>

text \<open>
  Claim C7 (a match whose template fails to parse or to render is skipped and reported)
  holds of a parse error and not of an error of \<^verbatim>\<open>Execute\<close>: on the buffer
  \<^verbatim>\<open>calc=1 calc=len calc=3\<close> the template of the second match parses and its execution
  fails after writing \<^verbatim>\<open>v=\<close>; no error is logged for it, and \<^verbatim>\<open>v=\<close> is logged as its
  output, between the outputs of the first and the third match.
\<close>

theorem handleWrite_execute_error_unreported:
  "handleWrite_events demo_template [calc_rule] ''calc=1 calc=len calc=3'' =
     [LogLooking ''calc'', LogFound, LogOutput ''v=1;'', LogFound, LogOutput ''v='',
      LogFound, LogOutput ''v=3;''] \<and>
   template_Parse demo_template ''v={{len}};'' = Inr ''v={{len}};'' \<and>
   template_Execute demo_template ''v={{len}};'' =
     (''v='', Some (ExecError ''wrong number of args for len''))"
  by (simp add: calc_rule_def rx_calc_def demo_template_def FindAllSubmatchIndex_def Expand_def)

section \<open>Reading twice\<close>

text \<open>
  Claim C9: when a call of \<open>ReadNewLines\<close> has returned a buffer and nothing is written
  to the file, the next call (its \<^verbatim>\<open>Stat\<close> succeeding) returns the empty buffer, not an
  error, and leaves the cursor as it was, the offset included.
\<close>

theorem ReadNewLines_twice:
  assumes "ReadNewLines env1 f = Returns (Inr buf, f1, l1)" and "stat_err env2 = None"
  shows "ReadNewLines env2 f1 = Returns (Inr [], f1, [LogRead 0 0 None])"
proof -
  from assms(1) obtain fl where fl: "file' f = Some fl"
    and f1: "f1 = f\<lparr>file' := Some (snd (File_Read env1 fl
                      (replicate (nat (int (length (data fl)) - offset f)) NUL))),
                    offset := int (length (data fl))\<rparr>"
    by (rule ReadNewLines_Inr)
  show ?thesis
    by (simp add: f1 ReadNewLines_def File_Stat_def assms(2) File_Read_data)
      (simp add: File_Read_def)
qed

theorem ReadNewLines_twice_witness:
  "ReadNewLines io_ok abc_file =
     Returns (Inr ''abc'',
       \<lparr>file' = Some \<lparr>data = ''abc'', pos = 3\<rparr>, Filename = ''/tmp/app.log'', offset = 3\<rparr>,
       [LogRead 3 3 None]) \<and>
   ReadNewLines io_ok
     \<lparr>file' = Some \<lparr>data = ''abc'', pos = 3\<rparr>, Filename = ''/tmp/app.log'', offset = 3\<rparr> =
     Returns (Inr [],
       \<lparr>file' = Some \<lparr>data = ''abc'', pos = 3\<rparr>, Filename = ''/tmp/app.log'', offset = 3\<rparr>,
       [LogRead 0 0 None])"
proof -
  have r: "ReadNewLines io_ok abc_file =
     Returns (Inr ''abc'',
       \<lparr>file' = Some \<lparr>data = ''abc'', pos = 3\<rparr>, Filename = ''/tmp/app.log'', offset = 3\<rparr>,
       [LogRead 3 3 None])"
    by (simp add: ReadNewLines_def File_Stat_def File_Read_def abc_file_def Let_def io_ok_def)
  have s: "stat_err io_ok = None" by (simp add: io_ok_def)
  from ReadNewLines_twice [OF r s] r show ?thesis by simp
qed

section \<open>The length of the buffer\<close>

text \<open>
  Claim C10: whenever \<open>ReadNewLines\<close> returns a buffer, its length is the statted size
  minus the offset before the call, whatever the read delivered: with \<open>n\<close> the number of
  bytes read (the one logged), the first \<open>n\<close> bytes of the buffer are the bytes of the
  file at the position of the open file, and the rest of the buffer, beyond \<open>n\<close>, is zero
  bytes. \<open>handleWrite\<close> runs the rules over this whole buffer.
\<close>

theorem ReadNewLines_buffer_length:
  assumes "ReadNewLines env f = Returns (Inr buf, f1, l)" and "file' f = Some fl"
  shows "int (length buf) = int (length (data fl)) - offset f \<and>
    (\<exists>n err. l = [LogRead (int n) (int (length buf)) err] \<and> n \<le> length buf \<and>
        take n buf = take n (drop (pos fl) (data fl)) \<and>
        drop n buf = replicate (length buf - n) NUL) \<and>
    handleWrite T env events (Some f) =
      Returns (Some f1,
        LogOldOffset (offset f) # l @ LogNewOffset (offset f1) # handleWrite_events T events buf)"
proof -
  let ?k = "nat (int (length (data fl)) - offset f)"
  let ?R = "File_Read env fl (replicate ?k NUL)"
  from assms have le: "offset f \<le> int (length (data fl))"
    and buf: "buf = fst (fst ?R)"
    and l: "l = [LogRead (fst (snd (fst ?R))) (int (length (data fl)) - offset f)
                  (snd (snd (fst ?R)))]"
    by (auto elim!: ReadNewLines_Inr)
  have len: "length buf = ?k" by (simp add: buf File_Read_length)
  obtain n where n: "fst (snd (fst ?R)) = int n" "n \<le> ?k"
     "take n (fst (fst ?R)) = take n (drop (pos fl) (data fl))"
     "drop n (fst (fst ?R)) = drop n (replicate ?k NUL)"
    using File_Read_shape [of env fl "replicate ?k NUL"] by auto
  have 1: "int (length buf) = int (length (data fl)) - offset f" using len le by simp
  have 2: "\<exists>n err. l = [LogRead (int n) (int (length buf)) err] \<and> n \<le> length buf \<and>
        take n buf = take n (drop (pos fl) (data fl)) \<and>
        drop n buf = replicate (length buf - n) NUL"
    using n l 1 len buf by (intro exI [of _ n]) simp
  have 3: "handleWrite T env events (Some f) =
      Returns (Some f1,
        LogOldOffset (offset f) # l @ LogNewOffset (offset f1) # handleWrite_events T events buf)"
    by (simp add: handleWrite_def assms(1) GetOffset_def)
  from 1 2 3 show ?thesis by blast
qed

text \<open>
  A read that delivers one byte of three: the buffer is that byte and two zero bytes, and
  the rules are run over the three.
\<close>

theorem ReadNewLines_buffer_length_witness:
  "ReadNewLines \<lparr>stat_err = None, read_err = None, read_avail = Some 1\<rparr> abc_file =
     Returns (Inr [CHR ''a'', NUL, NUL],
       \<lparr>file' = Some \<lparr>data = ''abc'', pos = 1\<rparr>, Filename = ''/tmp/app.log'', offset = 3\<rparr>,
       [LogRead 1 3 None]) \<and>
   file' abc_file = Some \<lparr>data = ''abc'', pos = 0\<rparr> \<and>
   int (length [CHR ''a'', NUL, NUL]) = int (length ''abc'') - offset abc_file \<and>
   handleWrite demo_template \<lparr>stat_err = None, read_err = None, read_avail = Some 1\<rparr>
     [ping_rule] (Some abc_file) =
     Returns (Some \<lparr>file' = Some \<lparr>data = ''abc'', pos = 1\<rparr>, Filename = ''/tmp/app.log'',
                    offset = 3\<rparr>,
       [LogOldOffset 0, LogRead 1 3 None, LogNewOffset 3] @
       handleWrite_events demo_template [ping_rule] [CHR ''a'', NUL, NUL])"
proof -
  let ?env = "\<lparr>stat_err = None, read_err = None, read_avail = Some 1\<rparr>"
  have r: "ReadNewLines ?env abc_file =
     Returns (Inr [CHR ''a'', NUL, NUL],
       \<lparr>file' = Some \<lparr>data = ''abc'', pos = 1\<rparr>, Filename = ''/tmp/app.log'', offset = 3\<rparr>,
       [LogRead 1 3 None])"
    by (simp add: ReadNewLines_def File_Stat_def File_Read_def abc_file_def Let_def
        numeral_3_eq_3)
  have fl: "file' abc_file = Some \<lparr>data = ''abc'', pos = 0\<rparr>"
    by (simp add: abc_file_def)
  from ReadNewLines_buffer_length [OF r fl, of demo_template "[ping_rule]"] r fl
  show ?thesis by (simp add: abc_file_def)
qed

section \<open>Contiguous ranges\<close>

text \<open>
  A call on a cursor whose offset is the position of the open file, within the file, when
  the operating system does its best: the buffer is the bytes from the offset to the end of
  the file, and offset and position both move to the end.
\<close>

lemma ReadNewLines_complete:
  assumes "file' f = Some fl" "offset f = int (pos fl)" "pos fl \<le> length (data fl)" "complete env"
  shows "ReadNewLines env f =
     Returns (Inr (drop (pos fl) (data fl)),
              f\<lparr>file' := Some (fl\<lparr>pos := length (data fl)\<rparr>), offset := int (length (data fl))\<rparr>,
              [LogRead (int (length (data fl) - pos fl)) (int (length (data fl)) - int (pos fl)) None])"
proof (cases "pos fl = length (data fl)")
  case True
  have "fl\<lparr>pos := length (data fl)\<rparr> = fl" using True by simp
  with True assms show ?thesis
    by (simp add: ReadNewLines_def File_Stat_def File_Read_def complete_def)
next
  case False
  with assms have lt: "pos fl < length (data fl)" by simp
  then have "nat (int (length (data fl)) - int (pos fl)) = length (data fl) - pos fl" by simp
  with lt assms show ?thesis
    by (simp add: ReadNewLines_def File_Stat_def File_Read_def complete_def Let_def)
qed

text \<open>The same over a run, by induction on the run.\<close>

lemma run_ops_complete:
  assumes "file' f = Some fl" "offset f = int (pos fl)" "pos fl \<le> length (data fl)"
    "list_all complete_op ops"
  shows "\<exists>calls f' fl'. run_ops ops f = Returns (calls, f') \<and>
           contiguous (offset f) calls (data fl @ appended ops) \<and>
           returned calls @ drop (nat (offset f')) (data fl @ appended ops) =
             drop (pos fl) (data fl @ appended ops) \<and>
           file' f' = Some fl' \<and> data fl' = data fl @ appended ops \<and>
           offset f' = int (pos fl') \<and> pos fl' \<le> length (data fl') \<and>
           pos fl \<le> pos fl' \<and>
           (ops \<noteq> [] \<and> is_read (last ops) \<longrightarrow> pos fl' = length (data fl'))"
  using assms
proof (induction ops arbitrary: f fl)
  case Nil
  then show ?case by simp
next
  case (Cons op ops)
  show ?case
  proof (cases op)
    case (Append bs)
    let ?fl2 = "fl\<lparr>data := data fl @ bs\<rparr>"
    let ?f2 = "append_bytes bs f"
    have a: "file' ?f2 = Some ?fl2" "offset ?f2 = int (pos ?fl2)" "pos ?fl2 \<le> length (data ?fl2)"
      using Cons.prems by (simp_all add: append_bytes_def)
    have b: "list_all complete_op ops" using Cons.prems by simp
    from Cons.IH [OF a b] obtain calls f' fl' where ih:
      "run_ops ops ?f2 = Returns (calls, f')"
      "contiguous (offset ?f2) calls (data ?fl2 @ appended ops)"
      "returned calls @ drop (nat (offset f')) (data ?fl2 @ appended ops) =
             drop (pos ?fl2) (data ?fl2 @ appended ops)"
      "file' f' = Some fl'" "data fl' = data ?fl2 @ appended ops"
      "offset f' = int (pos fl')" "pos fl' \<le> length (data fl')" "pos ?fl2 \<le> pos fl'"
      "(ops \<noteq> [] \<and> is_read (last ops) \<longrightarrow> pos fl' = length (data fl'))"
      by blast
    have off: "offset ?f2 = offset f" by (simp add: append_bytes_def)
    have eq: "data ?fl2 @ appended ops = data fl @ appended (op # ops)" "pos ?fl2 = pos fl"
      using Append by simp_all
    have run: "run_ops (op # ops) f = Returns (calls, f')"
      using ih(1) Append by simp
    have lst: "(op # ops \<noteq> [] \<and> is_read (last (op # ops)) \<longrightarrow> pos fl' = length (data fl'))"
      using ih(9) Append by (cases "ops = []") simp_all
    show ?thesis
      using run ih(2-8) lst unfolding eq off
      by (intro exI [of _ calls] exI [of _ f'] exI [of _ fl'] conjI) assumption+
  next
    case (ReadNew env)
    let ?fl1 = "fl\<lparr>pos := length (data fl)\<rparr>"
    let ?f1 = "f\<lparr>file' := Some ?fl1, offset := int (length (data fl))\<rparr>"
    let ?buf = "drop (pos fl) (data fl)"
    have c: "complete env" using Cons.prems ReadNew by simp
    have r: "ReadNewLines env f = Returns (Inr ?buf, ?f1,
              [LogRead (int (length (data fl) - pos fl)) (int (length (data fl)) - int (pos fl)) None])"
      using ReadNewLines_complete [OF Cons.prems(1,2,3) c] .
    have a: "file' ?f1 = Some ?fl1" "offset ?f1 = int (pos ?fl1)" "pos ?fl1 \<le> length (data ?fl1)"
      by simp_all
    have b: "list_all complete_op ops" using Cons.prems by simp
    from Cons.IH [OF a b] obtain calls f' fl' where ih:
      "run_ops ops ?f1 = Returns (calls, f')"
      "contiguous (offset ?f1) calls (data ?fl1 @ appended ops)"
      "returned calls @ drop (nat (offset f')) (data ?fl1 @ appended ops) =
             drop (pos ?fl1) (data ?fl1 @ appended ops)"
      "file' f' = Some fl'" "data fl' = data ?fl1 @ appended ops"
      "offset f' = int (pos fl')" "pos fl' \<le> length (data fl')" "pos ?fl1 \<le> pos fl'"
      "(ops \<noteq> [] \<and> is_read (last ops) \<longrightarrow> pos fl' = length (data fl'))"
      by blast
    let ?calls = "(offset f, Inr ?buf, int (length (data fl))) # calls"
    have run: "run_ops (op # ops) f = Returns (?calls, f')"
      using r ih(1) ReadNew by (simp add: GetOffset_def)
    have le: "pos fl \<le> length (data fl)" by (rule Cons.prems(3))
    have cont: "contiguous (offset f) ?calls (data fl @ appended (op # ops))"
      using ih(2) le Cons.prems(2) ReadNew by simp
    have ret: "returned ?calls @ drop (nat (offset f')) (data fl @ appended (op # ops)) =
             drop (pos fl) (data fl @ appended (op # ops))"
      using ih(3) le ReadNew by simp
    have last: "(op # ops \<noteq> [] \<and> is_read (last (op # ops)) \<longrightarrow> pos fl' = length (data fl'))"
    proof (cases "ops = []")
      case True
      with ih(1) have "f' = ?f1" by simp
      with ih(4) have "fl' = ?fl1" by simp
      then show ?thesis by simp
    next
      case False
      with ih(9) show ?thesis by simp
    qed
    have eq: "data ?fl1 @ appended ops = data fl @ appended (op # ops)"
      using ReadNew by simp
    have mono: "pos fl \<le> pos fl'" using ih(8) le by simp
    show ?thesis
      using run cont ret ih(4-7) mono last unfolding eq
      by (intro exI [of _ ?calls] exI [of _ f'] exI [of _ fl'] conjI) assumption+
  qed
qed

lemma NewLogFile_Inr:
  assumes "NewLogFile opn name initialOffset = Inr f0" and "opn name = Inr bytes"
  shows "f0 = \<lparr>file' = Some \<lparr>data = bytes, pos = nat initialOffset\<rparr>, Filename = name,
               offset = max 0 initialOffset\<rparr>"
  using assms by (auto simp: NewLogFile_def File_Seek_def Let_def split: if_splits)

text \<open>
  Claim C1, as amended: a cursor is opened at an offset within the file; bytes are appended
  and \<open>ReadNewLines\<close> is called, in any order, and during every call \<^verbatim>\<open>Stat\<close> succeeds and
  the read delivers all it is asked for. Then every call returns a buffer, the buffers are
  contiguous ranges of the file that start at the opening offset (each range starts where
  the one before ended, so none overlaps another and no byte between them is left out), and
  the buffers together with the bytes beyond the last offset are the file from the opening
  offset on. After a call that follows the last append, the buffers are all of the file
  from the opening offset on: what the file held beyond that offset when the cursor was
  opened, then every appended byte.
\<close>

theorem ReadNewLines_ranges:
  assumes "opn name = Inr bytes"
    and "NewLogFile opn name initialOffset = Inr f0"
    and "initialOffset \<le> int (length bytes)"
    and "list_all complete_op ops"
  shows "\<exists>calls f. run_ops ops f0 = Returns (calls, f) \<and>
           offset f0 = max 0 initialOffset \<and>
           contiguous (offset f0) calls (bytes @ appended ops) \<and>
           returned calls @ drop (nat (offset f)) (bytes @ appended ops) =
             drop (nat (offset f0)) (bytes @ appended ops) \<and>
           (ops \<noteq> [] \<and> is_read (last ops) \<longrightarrow>
              returned calls = drop (nat (offset f0)) (bytes @ appended ops))"
proof -
  let ?fl = "\<lparr>data = bytes, pos = nat initialOffset\<rparr>"
  have f0: "f0 = \<lparr>file' = Some ?fl, Filename = name, offset = max 0 initialOffset\<rparr>"
    using NewLogFile_Inr [OF assms(2,1)] .
  have a: "file' f0 = Some ?fl" "offset f0 = int (pos ?fl)" "pos ?fl \<le> length (data ?fl)"
    using assms(3) by (simp_all add: f0)
  from run_ops_complete [OF a assms(4)] obtain calls f fl' where r:
    "run_ops ops f0 = Returns (calls, f)"
    "contiguous (offset f0) calls (data ?fl @ appended ops)"
    "returned calls @ drop (nat (offset f)) (data ?fl @ appended ops) =
       drop (pos ?fl) (data ?fl @ appended ops)"
    "file' f = Some fl'" "data fl' = data ?fl @ appended ops"
    "offset f = int (pos fl')" "pos fl' \<le> length (data fl')"
    "(ops \<noteq> [] \<and> is_read (last ops) \<longrightarrow> pos fl' = length (data fl'))"
    by blast
  have n: "nat (offset f0) = nat initialOffset" by (simp add: f0)
  have off: "offset f0 = max 0 initialOffset" by (simp add: f0)
  have c: "contiguous (offset f0) calls (bytes @ appended ops)" using r(2) by simp
  have p: "returned calls @ drop (nat (offset f)) (bytes @ appended ops) =
             drop (nat (offset f0)) (bytes @ appended ops)"
    using r(3) n by simp
  have e: "ops \<noteq> [] \<and> is_read (last ops) \<longrightarrow>
              returned calls = drop (nat (offset f0)) (bytes @ appended ops)"
  proof
    assume "ops \<noteq> [] \<and> is_read (last ops)"
    with r(8) have "pos fl' = length (data fl')" by blast
    then have "drop (nat (offset f)) (bytes @ appended ops) = []"
      using r(5,6) by simp
    with p show "returned calls = drop (nat (offset f0)) (bytes @ appended ops)" by simp
  qed
  from r(1) off c p e show ?thesis by blast
qed

text \<open>
  A cursor opened at the end of a file of two bytes; three bytes are appended in two
  writes, with a call after each and one more call.
\<close>

theorem ReadNewLines_ranges_witness:
  "os_Open demo_host ''/var/log/a.log'' = Inr ''ab'' \<and>
   NewLogFile (os_Open demo_host) ''/var/log/a.log'' 2 =
     Inr \<lparr>file' = Some \<lparr>data = ''ab'', pos = 2\<rparr>, Filename = ''/var/log/a.log'', offset = 2\<rparr> \<and>
   (2::int) \<le> int (length ''ab'') \<and>
   list_all complete_op [Append ''cd'', ReadNew io_ok, Append ''e'', ReadNew io_ok, ReadNew io_ok] \<and>
   run_ops [Append ''cd'', ReadNew io_ok, Append ''e'', ReadNew io_ok, ReadNew io_ok]
     \<lparr>file' = Some \<lparr>data = ''ab'', pos = 2\<rparr>, Filename = ''/var/log/a.log'', offset = 2\<rparr> =
     Returns ([(2, Inr ''cd'', 4), (4, Inr ''e'', 5), (5, Inr [], 5)],
       \<lparr>file' = Some \<lparr>data = ''abcde'', pos = 5\<rparr>, Filename = ''/var/log/a.log'', offset = 5\<rparr>) \<and>
   contiguous 2 [(2, Inr ''cd'', 4), (4, Inr ''e'', 5), (5, Inr [], 5)] ''abcde'' \<and>
   returned [(2, Inr ''cd'', 4), (4, Inr ''e'', 5), (5, Inr [], 5)] = ''cde'' \<and>
   appended [Append ''cd'', ReadNew io_ok, Append ''e'', ReadNew io_ok, ReadNew io_ok] = ''cde''"
proof -
  let ?ops = "[Append ''cd'', ReadNew io_ok, Append ''e'', ReadNew io_ok, ReadNew io_ok]"
  let ?f0 = "\<lparr>file' = Some \<lparr>data = ''ab'', pos = 2\<rparr>, Filename = ''/var/log/a.log'', offset = 2\<rparr>"
  have h1: "os_Open demo_host ''/var/log/a.log'' = Inr ''ab''"
    by (simp add: demo_host_def)
  have h2: "NewLogFile (os_Open demo_host) ''/var/log/a.log'' 2 = Inr ?f0"
    by (simp add: NewLogFile_def demo_host_def File_Seek_def)
  have h3: "(2::int) \<le> int (length ''ab'')" by simp
  have h4: "list_all complete_op ?ops" by (simp add: complete_def io_ok_def)
  have app: "appended ?ops = ''cde''" by simp
  from ReadNewLines_ranges [OF h1 h2 h3 h4] obtain calls f where r:
    "run_ops ?ops ?f0 = Returns (calls, f)"
    "contiguous (offset ?f0) calls (''ab'' @ appended ?ops)"
    "returned calls = drop (nat (offset ?f0)) (''ab'' @ appended ?ops)"
    by auto
  have run: "run_ops ?ops ?f0 =
     Returns ([(2, Inr ''cd'', 4), (4, Inr ''e'', 5), (5, Inr [], 5)],
       \<lparr>file' = Some \<lparr>data = ''abcde'', pos = 5\<rparr>, Filename = ''/var/log/a.log'', offset = 5\<rparr>)"
    by (simp add: append_bytes_def ReadNewLines_def File_Stat_def File_Read_def
      io_ok_def Let_def GetOffset_def numeral_2_eq_2)
  from r run have calls: "calls = [(2, Inr ''cd'', 4), (4, Inr ''e'', 5), (5, Inr [], 5)]"
    by simp
  from r(2,3) have "contiguous 2 [(2, Inr ''cd'', 4), (4, Inr ''e'', 5), (5, Inr [], 5)] ''abcde''"
    "returned [(2, Inr ''cd'', 4), (4, Inr ''e'', 5), (5, Inr [], 5)] = ''cde''"
    unfolding calls by simp_all
  with h1 h2 h3 h4 run app show ?thesis by blast
qed

text \<open>
  The claim as stated fails: the program opens every cursor at offset 0, and on a file
  that holds \<^verbatim>\<open>ab\<close> when it is opened, the first call returns \<^verbatim>\<open>ab\<close> although nothing was
  appended since.
\<close>

theorem ReadNewLines_ranges_counterexample:
  "NewLogFile (os_Open demo_host) ''/var/log/a.log'' 0 =
     Inr \<lparr>file' = Some \<lparr>data = ''ab'', pos = 0\<rparr>, Filename = ''/var/log/a.log'', offset = 0\<rparr> \<and>
   run_ops [ReadNew io_ok]
     \<lparr>file' = Some \<lparr>data = ''ab'', pos = 0\<rparr>, Filename = ''/var/log/a.log'', offset = 0\<rparr> =
     Returns ([(0, Inr ''ab'', 2)],
       \<lparr>file' = Some \<lparr>data = ''ab'', pos = 2\<rparr>, Filename = ''/var/log/a.log'', offset = 2\<rparr>) \<and>
   returned [(0, Inr ''ab'', 2)] = ''ab'' \<and>
   appended [ReadNew io_ok] = []"
  by (simp add: NewLogFile_def demo_host_def ReadNewLines_def File_Stat_def File_Read_def
      io_ok_def Let_def GetOffset_def)

section \<open>The order of the rules\<close>

lemma createEventList_range_events:
  "fst (createEventList_range H m keys (events, logged)) =
     events @ List.map_filter (load_event H m) keys"
proof (induction keys arbitrary: events logged)
  case Nil
  then show ?case by (simp add: List.map_filter_simps)
next
  case (Cons key keys)
  then show ?case
    by (simp add: List.map_filter_simps load_event_def split: option.splits sum.splits)
qed

lemma createEventList_events:
  "fst (createEventList H cfg keys) = List.map_filter (load_event H (Events cfg)) keys"
  by (cases keys) (simp_all add: createEventList_def createEventList_range_events List.map_filter_simps del: createEventList_range.simps)

text \<open>
  Claim C5, as amended: after a read that returned a buffer (empty or not), \<open>handleWrite\<close>
  runs every rule of the list \<open>createEventList\<close> built over that buffer, in the order of
  the list; the list holds the rules that loaded, in the order in which the runtime
  enumerated the keys of the configuration's map when the list was built.
\<close>

theorem handleWrite_rule_order:
  assumes "ReadNewLines env f = Returns (Inr buf, f1, l)"
  shows "handleWrite T env (fst (createEventList H cfg keys)) (Some f) =
           Returns (Some f1,
             LogOldOffset (offset f) # l @ LogNewOffset (offset f1) #
             concat (map (\<lambda>e. LogLooking (EventType e) #
                               handleWrite_matches T e buf (all_matches (Regex e) buf))
                         (fst (createEventList H cfg keys)))) \<and>
         fst (createEventList H cfg keys) = List.map_filter (load_event H (Events cfg)) keys"
  by (simp add: handleWrite_def assms GetOffset_def handleWrite_events_concat createEventList_events)

theorem handleWrite_rule_order_witness:
  "ReadNewLines io_ok abc_file =
     Returns (Inr ''abc'',
       \<lparr>file' = Some \<lparr>data = ''abc'', pos = 3\<rparr>, Filename = ''/tmp/app.log'', offset = 3\<rparr>,
       [LogRead 3 3 None]) \<and>
   fst (createEventList demo_host demo_cfg [''ping'', ''calc'']) = [ping_rule, calc_rule] \<and>
   handleWrite demo_template io_ok (fst (createEventList demo_host demo_cfg [''ping'', ''calc''])) (Some abc_file) =
     Returns (Some \<lparr>file' = Some \<lparr>data = ''abc'', pos = 3\<rparr>, Filename = ''/tmp/app.log'', offset = 3\<rparr>,
       [LogOldOffset 0, LogRead 3 3 None, LogNewOffset 3,
        LogLooking ''ping'', LogFound, LogOutput ''ping'', LogLooking ''calc''])"
proof -
  have r: "ReadNewLines io_ok abc_file =
     Returns (Inr ''abc'',
       \<lparr>file' = Some \<lparr>data = ''abc'', pos = 3\<rparr>, Filename = ''/tmp/app.log'', offset = 3\<rparr>,
       [LogRead 3 3 None])"
    by (simp add: ReadNewLines_def File_Stat_def File_Read_def abc_file_def Let_def io_ok_def)
  have e: "List.map_filter (load_event demo_host (Events demo_cfg)) [''ping'', ''calc''] = [ping_rule, calc_rule]"
    by (simp add: List.map_filter_simps load_event_def demo_host_def demo_cfg_def ping_rule_def calc_rule_def)
  let ?evs = "fst (createEventList demo_host demo_cfg [''ping'', ''calc''])"
  note th = handleWrite_rule_order [OF r, of demo_template demo_host demo_cfg "[''ping'', ''calc'']"]
  have hw: "handleWrite demo_template io_ok ?evs (Some abc_file) =
           Returns (Some \<lparr>file' = Some \<lparr>data = ''abc'', pos = 3\<rparr>, Filename = ''/tmp/app.log'', offset = 3\<rparr>,
             LogOldOffset (offset abc_file) # [LogRead 3 3 None] @ LogNewOffset 3 #
             concat (map (\<lambda>e. LogLooking (EventType e) #
                               handleWrite_matches demo_template e ''abc'' (all_matches (Regex e) ''abc''))
                         ?evs))"
    and ce: "?evs = List.map_filter (load_event demo_host (Events demo_cfg)) [''ping'', ''calc'']"
  proof -
    show "handleWrite demo_template io_ok ?evs (Some abc_file) =
           Returns (Some \<lparr>file' = Some \<lparr>data = ''abc'', pos = 3\<rparr>, Filename = ''/tmp/app.log'', offset = 3\<rparr>,
             LogOldOffset (offset abc_file) # [LogRead 3 3 None] @ LogNewOffset 3 #
             concat (map (\<lambda>e. LogLooking (EventType e) #
                               handleWrite_matches demo_template e ''abc'' (all_matches (Regex e) ''abc''))
                         ?evs))"
      using th [THEN conjunct1] by simp
    show "?evs = List.map_filter (load_event demo_host (Events demo_cfg)) [''ping'', ''calc'']"
      by (rule th [THEN conjunct2])
  qed
  have ev: "?evs = [ping_rule, calc_rule]" using ce e by simp
  have lg: "LogOldOffset (offset abc_file) # [LogRead 3 3 None] @ LogNewOffset 3 #
             concat (map (\<lambda>e. LogLooking (EventType e) #
                               handleWrite_matches demo_template e ''abc'' (all_matches (Regex e) ''abc''))
                         [ping_rule, calc_rule]) =
       [LogOldOffset 0, LogRead 3 3 None, LogNewOffset 3,
        LogLooking ''ping'', LogFound, LogOutput ''ping'', LogLooking ''calc'']"
    by (simp add: abc_file_def ping_rule_def calc_rule_def rx_calc_def rx_start_def demo_template_def Expand_def)
  from hw have hw': "handleWrite demo_template io_ok ?evs (Some abc_file) =
           Returns (Some \<lparr>file' = Some \<lparr>data = ''abc'', pos = 3\<rparr>, Filename = ''/tmp/app.log'', offset = 3\<rparr>,
       [LogOldOffset 0, LogRead 3 3 None, LogNewOffset 3,
        LogLooking ''ping'', LogFound, LogOutput ''ping'', LogLooking ''calc''])"
    unfolding ev lg .
  from r ev hw' show ?thesis by blast
qed

text \<open>
  The claim as stated fails: the same configuration gives the rules in either order,
  with the enumeration of the map, and the rules are run in that order.
\<close>

theorem createEventList_order_counterexample:
  "map EventType (fst (createEventList demo_host demo_cfg [''calc'', ''ping''])) = [''calc'', ''ping''] \<and>
   map EventType (fst (createEventList demo_host demo_cfg [''ping'', ''calc''])) = [''ping'', ''calc''] \<and>
   handleWrite_events demo_template (fst (createEventList demo_host demo_cfg [''calc'', ''ping''])) ''abc'' =
     [LogLooking ''calc'', LogLooking ''ping'', LogFound, LogOutput ''ping''] \<and>
   handleWrite_events demo_template (fst (createEventList demo_host demo_cfg [''ping'', ''calc''])) ''abc'' =
     [LogLooking ''ping'', LogFound, LogOutput ''ping'', LogLooking ''calc'']"
  by (simp add: createEventList_def demo_host_def demo_cfg_def rx_calc_def rx_start_def demo_template_def FindAllSubmatchIndex_def Expand_def)

section \<open>The registry of cursors\<close>

lemma filter_go_filter: "filter_go vs f vsf = vsf @ filter f vs"
  by (induction vs arbitrary: vsf) auto

lemma NewLogFile_zero:
  "NewLogFile opn name 0 =
     (case opn name of Inl err \<Rightarrow> Inl err
      | Inr bytes \<Rightarrow> Inr \<lparr>file' = Some \<lparr>data = bytes, pos = 0\<rparr>, Filename = name, offset = 0\<rparr>)"
  by (simp add: NewLogFile_def split: sum.splits)

lemma createLogFileList_open_dom:
  "dom (fst (createLogFileList_open H names (logFiles, logged))) =
     dom logFiles \<union> {p \<in> set names. \<exists>bytes. os_Open H p = Inr bytes}"
proof (induction names arbitrary: logFiles logged)
  case Nil
  then show ?case by simp
next
  case (Cons name names)
  show ?case
  proof (cases "os_Open H name")
    case (Inl err)
    have "dom (fst (createLogFileList_open H (name # names) (logFiles, logged))) =
            dom logFiles \<union> {p \<in> set names. \<exists>bytes. os_Open H p = Inr bytes}"
      using Inl by (simp add: NewLogFile_zero Cons.IH)
    moreover have "{p \<in> set (name # names). \<exists>bytes. os_Open H p = Inr bytes} =
            {p \<in> set names. \<exists>bytes. os_Open H p = Inr bytes}"
      using Inl by auto
    ultimately show ?thesis by simp
  next
    case (Inr bytes)
    have "dom (fst (createLogFileList_open H (name # names) (logFiles, logged))) =
            insert name (dom logFiles) \<union> {p \<in> set names. \<exists>bytes. os_Open H p = Inr bytes}"
      using Inr by (simp add: NewLogFile_zero Cons.IH) (auto split: if_splits)
    moreover have "{p \<in> set (name # names). \<exists>bytes. os_Open H p = Inr bytes} =
            insert name {p \<in> set names. \<exists>bytes. os_Open H p = Inr bytes}"
      using Inr by auto
    ultimately show ?thesis by simp
  qed
qed

text \<open>
  Claim C8, as amended: the registry holds exactly the names, of the explicit files and of
  the files of the directories alike, that the filter keeps and that open. The filter is
  applied to the explicit files as well; it keeps every name when it does not compile.
\<close>

theorem createLogFileList_registry:
  "dom (fst (createLogFileList H cfg)) =
     {p \<in> set (candidates H cfg). kept H cfg p \<and> (\<exists>bytes. os_Open H p = Inr bytes)}"
  by (auto simp: createLogFileList_def candidates_def kept_def Let_def createLogFileList_open_dom
      filter_go_filter split: sum.splits)

text \<open>
  The claim as stated fails: \<^verbatim>\<open>/srv/app.txt\<close> is listed as a file and opens, does not match
  the filter, and is not in the registry.
\<close>

theorem createLogFileList_explicit_file_counterexample:
  "Input_Files demo_cfg = [''/srv/app.txt''] \<and>
   NewLogFile (os_Open demo_host) ''/srv/app.txt'' 0 =
     Inr \<lparr>file' = Some \<lparr>data = ''x'', pos = 0\<rparr>, Filename = ''/srv/app.txt'', offset = 0\<rparr> \<and>
   fst (createLogFileList demo_host demo_cfg) ''/srv/app.txt'' = None \<and>
   fst (createLogFileList demo_host demo_cfg) ''/var/log/a.txt'' = None \<and>
   fst (createLogFileList demo_host demo_cfg) ''/var/log/a.log'' =
     Some \<lparr>file' = Some \<lparr>data = ''ab'', pos = 0\<rparr>, Filename = ''/var/log/a.log'', offset = 0\<rparr> \<and>
   fst (createLogFileList demo_host demo_cfg) ''/var/log/b.log'' =
     Some \<lparr>file' = Some \<lparr>data = [], pos = 0\<rparr>, Filename = ''/var/log/b.log'', offset = 0\<rparr>"
  by (simp add: createLogFileList_def demo_host_def demo_cfg_def getFilesFromDir_def rx_log_def
      MatchString_def NewLogFile_zero)

end
